theory Spec2Isabelle
  imports Complex_Main "HOL-Library.Sublist"
begin

section \<open>The Date built-in\<close>

text \<open>
  The source manipulates JavaScript \<^verbatim>\<open>Date\<close> objects through their local calendar
  fields (\<^verbatim>\<open>getFullYear\<close>, \<^verbatim>\<open>getMonth\<close>, \<^verbatim>\<open>getDate\<close>, \<^verbatim>\<open>setMonth\<close>,
  \<^verbatim>\<open>setDate\<close>) and compares them through their time value. The time value of a valid
  date is modelled by its calendar fields in the proleptic Gregorian calendar: the month
  index \<open>12 * year + month\<close> (month counted from 0, as JavaScript does), the day of the
  month and the milliseconds within the day. The local time zone is taken to be UTC
  without daylight saving (the worker runtime), so the local fields are the UTC fields.
  A \<^verbatim>\<open>Date\<close> object is such a time value or an Invalid Date (time value NaN), see
  \<open>jsDate\<close> below; the range limit of \<^verbatim>\<open>Date\<close> is outside the model. JavaScript
  numbers that carry prices, rates and day counts are modelled as reals.
\<close>

record calendarTime =
  monthIndex :: int
  dayOfMonth :: int
  msOfDay :: int

definition msPerDay :: int where
  "msPerDay = 86400000"

definition isLeapYear :: "int \<Rightarrow> bool" where
  "isLeapYear y \<longleftrightarrow> y mod 4 = 0 \<and> (y mod 100 \<noteq> 0 \<or> y mod 400 = 0)"

text \<open>Number of days of the month with index \<open>mi\<close>.\<close>

definition monthLength :: "int \<Rightarrow> int" where
  "monthLength mi =
     (let y = mi div 12; m = mi mod 12
      in if m = 1 then (if isLeapYear y then 29 else 28)
         else if m = 3 \<or> m = 5 \<or> m = 8 \<or> m = 10 then 30
         else 31)"

text \<open>ECMAScript's \<^verbatim>\<open>DayFromYear\<close>: the day number (days since 1 January 1970) of 1 January.\<close>

definition dayFromYear :: "int \<Rightarrow> int" where
  "dayFromYear y =
     365 * (y - 1970) + (y - 1969) div 4 - (y - 1901) div 100 + (y - 1601) div 400"

definition daysBeforeMonth :: "int \<Rightarrow> int" where
  "daysBeforeMonth mi =
     (let y = mi div 12; m = mi mod 12
      in [0, 31, 59, 90, 120, 151, 181, 212, 243, 273, 304, 334] ! nat m
         + (if isLeapYear y \<and> 2 \<le> m then 1 else 0))"

text \<open>Day number of the first day of the month with index \<open>mi\<close>.\<close>

definition monthStartDay :: "int \<Rightarrow> int" where
  "monthStartDay mi = dayFromYear (mi div 12) + daysBeforeMonth mi"

definition dayNumber :: "calendarTime \<Rightarrow> int" where
  "dayNumber d = monthStartDay (monthIndex d) + dayOfMonth d - 1"

text \<open>
  Calendar fields are well formed when the day lies in its month and the time lies in its
  day: these are the fields of a time value. The operations below keep them well formed.
\<close>

definition wellFormedTime :: "calendarTime \<Rightarrow> bool" where
  "wellFormedTime d \<longleftrightarrow>
     1 \<le> dayOfMonth d \<and> dayOfMonth d \<le> monthLength (monthIndex d) \<and>
     0 \<le> msOfDay d \<and> msOfDay d < msPerDay"

definition getTime :: "calendarTime \<Rightarrow> int" where
  "getTime d = dayNumber d * msPerDay + msOfDay d"

definition getFullYear :: "calendarTime \<Rightarrow> int" where
  "getFullYear d = monthIndex d div 12"

definition getMonth :: "calendarTime \<Rightarrow> int" where
  "getMonth d = monthIndex d mod 12"

definition getDate :: "calendarTime \<Rightarrow> int" where
  "getDate d = dayOfMonth d"

text \<open>\<^verbatim>\<open>getDay\<close>: 0 is Sunday; 1 January 1970 was a Thursday.\<close>

definition getDay :: "calendarTime \<Rightarrow> int" where
  "getDay d = (dayNumber d + 4) mod 7"

text \<open>
  ECMAScript's \<^verbatim>\<open>MakeDay\<close> accepts any day-of-month number and carries it into the
  neighbouring months: day 31 of a 30-day month is day 1 of the next month, day 0 is the
  last day of the month before.
\<close>

function normDay :: "int \<Rightarrow> int \<Rightarrow> int \<times> int" where
  "normDay mi dy =
     (if dy < 1 then normDay (mi - 1) (dy + monthLength (mi - 1))
      else if monthLength mi < dy then normDay (mi + 1) (dy - monthLength mi)
      else (mi, dy))"
  by pat_completeness auto

lemma monthLength_bounds: "28 \<le> monthLength mi \<and> monthLength mi \<le> 31"
  by (simp add: monthLength_def Let_def)

termination normDay
proof (relation "measure (\<lambda>(mi, dy). if dy < 1 then nat (1 - dy) + 32 else nat dy)")
  show "wf (measure (\<lambda>(mi, dy). if dy < 1 then nat (1 - dy) + 32 else nat dy))"
    by simp
next
  fix mi dy :: int
  assume "dy < 1"
  then show "((mi - 1, dy + monthLength (mi - 1)), (mi, dy))
          \<in> measure (\<lambda>(mi, dy). if dy < 1 then nat (1 - dy) + 32 else nat dy)"
    using monthLength_bounds [of "mi - 1"] by auto
next
  fix mi dy :: int
  assume "\<not> dy < 1" "monthLength mi < dy"
  then show "((mi + 1, dy - monthLength mi), (mi, dy))
          \<in> measure (\<lambda>(mi, dy). if dy < 1 then nat (1 - dy) + 32 else nat dy)"
    using monthLength_bounds [of mi] by auto
qed

declare normDay.simps [simp del]

definition makeDate :: "int \<Rightarrow> int \<Rightarrow> int \<Rightarrow> calendarTime" where
  "makeDate mi dy ms =
     (let p = normDay mi dy
      in \<lparr>monthIndex = fst p, dayOfMonth = snd p, msOfDay = ms\<rparr>)"

text \<open>
  \<^verbatim>\<open>new Date(year, month, day)\<close>: local midnight; a year from 0 to 99 means 1900 + year.
\<close>

definition newDate :: "int \<Rightarrow> int \<Rightarrow> int \<Rightarrow> calendarTime" where
  "newDate year month day =
     (let yr = (if 0 \<le> year \<and> year \<le> 99 then 1900 + year else year)
      in makeDate (12 * yr + month) day 0)"

text \<open>Midnight UTC of a calendar day (month counted from 1), and a time of that day.\<close>

definition utcMidnight :: "int \<Rightarrow> int \<Rightarrow> int \<Rightarrow> calendarTime" where
  "utcMidnight y m d = \<lparr>monthIndex = 12 * y + (m - 1), dayOfMonth = d, msOfDay = 0\<rparr>"

definition atClock :: "int \<Rightarrow> int \<Rightarrow> int \<Rightarrow> int \<Rightarrow> int \<Rightarrow> calendarTime" where
  "atClock y m d hours minutes =
     \<lparr>monthIndex = 12 * y + (m - 1), dayOfMonth = d, msOfDay = (hours * 60 + minutes) * 60000\<rparr>"

text \<open>\<^verbatim>\<open>ToIntegerOrInfinity\<close>: truncation towards zero, applied by \<^verbatim>\<open>setMonth\<close>.\<close>

definition toInteger :: "real \<Rightarrow> int" where
  "toInteger x = (if x < 0 then \<lceil>x\<rceil> else \<lfloor>x\<rfloor>)"

definition setMonth :: "calendarTime \<Rightarrow> real \<Rightarrow> calendarTime" where
  "setMonth d m = makeDate (12 * getFullYear d + toInteger m) (getDate d) (msOfDay d)"

definition setDate :: "calendarTime \<Rightarrow> int \<Rightarrow> calendarTime" where
  "setDate d n = makeDate (monthIndex d) n (msOfDay d)"

subsection \<open>Date objects\<close>

text \<open>
  A \<^verbatim>\<open>Date\<close> object holds a time value or NaN. \<^verbatim>\<open>new Date(s)\<close> of a string
  that is no date gives an Invalid Date; every getter of an Invalid Date returns NaN and
  every setter leaves it invalid.
\<close>

datatype jsDate = InvalidDate | ValidDate calendarTime

text \<open>\<^verbatim>\<open>getTime()\<close> of a \<^verbatim>\<open>Date\<close> object; \<open>None\<close> is NaN.\<close>

fun timeValue :: "jsDate \<Rightarrow> int option" where
  "timeValue InvalidDate = None"
| "timeValue (ValidDate d) = Some (getTime d)"

text \<open>
  \<^verbatim>\<open>a <= b\<close>, \<^verbatim>\<open>a < b\<close> and \<^verbatim>\<open>a.getTime() === b.getTime()\<close> on
  \<^verbatim>\<open>Date\<close> objects compare the time values as numbers; each is false when one of
  them is NaN.
\<close>

definition dateLe :: "jsDate \<Rightarrow> jsDate \<Rightarrow> bool" where
  "dateLe a b =
     (case timeValue a of
        None \<Rightarrow> False
      | Some x \<Rightarrow> (case timeValue b of None \<Rightarrow> False | Some y \<Rightarrow> x \<le> y))"

definition dateLt :: "jsDate \<Rightarrow> jsDate \<Rightarrow> bool" where
  "dateLt a b =
     (case timeValue a of
        None \<Rightarrow> False
      | Some x \<Rightarrow> (case timeValue b of None \<Rightarrow> False | Some y \<Rightarrow> x < y))"

definition sameTime :: "jsDate \<Rightarrow> jsDate \<Rightarrow> bool" where
  "sameTime a b =
     (case timeValue a of
        None \<Rightarrow> False
      | Some x \<Rightarrow> (case timeValue b of None \<Rightarrow> False | Some y \<Rightarrow> x = y))"

text \<open>
  The date an ISO string \<^verbatim>\<open>YYYY-MM-DD\<close> of a calendar day denotes, as
  \<^verbatim>\<open>parseISODate\<close> returns it: midnight UTC of that day. For a string that is no
  date \<^verbatim>\<open>parseISODate\<close> returns \<open>InvalidDate\<close>.
\<close>

definition isoDate :: "int \<Rightarrow> int \<Rightarrow> int \<Rightarrow> jsDate" where
  "isoDate y m d = ValidDate (utcMidnight y m d)"

subsection \<open>Facts about the calendar\<close>

lemma div_step:
  fixes a n :: int
  assumes "0 < n"
  shows "(a + 1) div n = a div n + (if (a + 1) mod n = 0 then 1 else 0)"
proof (cases "a mod n = n - 1")
  case True
  have "a = n * (a div n) + a mod n" by simp
  then have "a = n * (a div n) + (n - 1)" using True by simp
  then have e: "a + 1 = n * (a div n + 1) + 0" by (simp add: algebra_simps)
  have "(a + 1) div n = a div n + 1"
    using assms by (intro int_div_pos_eq [OF e]) simp_all
  moreover have "(a + 1) mod n = 0"
    using assms by (intro int_mod_pos_eq [OF e]) simp_all
  ultimately show ?thesis by simp
next
  case False
  have r: "0 \<le> a mod n" "a mod n < n" using assms by simp_all
  have e: "a + 1 = n * (a div n) + (a mod n + 1)" by simp
  have lt: "a mod n + 1 < n" using r False by linarith
  have "(a + 1) div n = a div n"
    using r lt by (intro int_div_pos_eq [OF e]) simp_all
  moreover have "(a + 1) mod n = a mod n + 1"
    using r lt by (intro int_mod_pos_eq [OF e]) simp_all
  ultimately show ?thesis using r by simp
qed

lemma mod_shift4: "(y - 1968) mod 4 = (y::int) mod 4"
  using mod_mult_self1 [of y "-492" 4] by simp

lemma mod_shift100: "(y - 1900) mod 100 = (y::int) mod 100"
  using mod_mult_self1 [of y "-19" 100] by simp

lemma mod_shift400: "(y - 1600) mod 400 = (y::int) mod 400"
  using mod_mult_self1 [of y "-4" 400] by simp

lemma mod400_100: "(y::int) mod 400 = 0 \<Longrightarrow> y mod 100 = 0"
proof -
  assume "y mod 400 = 0"
  then have "400 dvd y" by (simp add: mod_eq_0_iff_dvd)
  moreover have "(100::int) dvd 400" by simp
  ultimately have "100 dvd y" by (rule dvd_trans [rotated])
  then show ?thesis by (simp add: mod_eq_0_iff_dvd)
qed


lemma dayFromYear_Suc:
  "dayFromYear (y + 1) = dayFromYear y + (if isLeapYear y then 366 else 365)"
proof -
  have a: "(y + 1 - 1969) div 4 = (y - 1969) div 4 + (if y mod 4 = 0 then 1 else 0)"
    using div_step [of 4 "y - 1969"] mod_shift4 [of y] by (simp add: algebra_simps)
  have b: "(y + 1 - 1901) div 100 = (y - 1901) div 100 + (if y mod 100 = 0 then 1 else 0)"
    using div_step [of 100 "y - 1901"] mod_shift100 [of y] by (simp add: algebra_simps)
  have c: "(y + 1 - 1601) div 400 = (y - 1601) div 400 + (if y mod 400 = 0 then 1 else 0)"
    using div_step [of 400 "y - 1601"] mod_shift400 [of y] by (simp add: algebra_simps)
  have d: "y mod 400 = 0 \<Longrightarrow> y mod 100 = 0" by (rule mod400_100)
  have e: "y mod 100 = 0 \<Longrightarrow> y mod 4 = 0"
  proof -
    assume "y mod 100 = 0"
    then have "100 dvd y" by (simp add: mod_eq_0_iff_dvd)
    moreover have "(4::int) dvd 100" by simp
    ultimately have "4 dvd y" by (rule dvd_trans [rotated])
    then show ?thesis by (simp add: mod_eq_0_iff_dvd)
  qed
  have "dayFromYear (y + 1) = dayFromYear y + 365 + (if y mod 4 = 0 then 1 else 0)
          - (if y mod 100 = 0 then 1 else 0) + (if y mod 400 = 0 then 1 else 0)"
    unfolding dayFromYear_def a b c by (simp only: algebra_simps)
  moreover have "(if y mod 4 = 0 then 1 else 0) - (if y mod 100 = 0 then 1 else 0)
          + (if y mod 400 = 0 then 1 else 0) = (if isLeapYear y then 1 else (0::int))"
  proof (cases "y mod 400 = 0")
    case True
    then show ?thesis using d e by (simp add: isLeapYear_def)
  next
    case False
    then show ?thesis using e by (cases "y mod 100 = 0") (simp_all add: isLeapYear_def)
  qed
  ultimately show ?thesis by (simp split: if_splits)
qed

lemma monthIndex_split:
  fixes mi :: int
  obtains y m where "mi = 12 * y + m" "0 \<le> m" "m < 12"
proof -
  have "mi = 12 * (mi div 12) + mi mod 12" by simp
  moreover have "0 \<le> mi mod 12" "mi mod 12 < 12" by simp_all
  ultimately show ?thesis using that by blast
qed

lemma monthStartDay_Suc:
  "monthStartDay (mi + 1) = monthStartDay mi + monthLength mi"
proof -
  obtain y m where mi: "mi = 12 * y + m" and m: "0 \<le> m" "m < 12"
    by (rule monthIndex_split)
  from m have "m = 0 \<or> m = 1 \<or> m = 2 \<or> m = 3 \<or> m = 4 \<or> m = 5 \<or> m = 6
      \<or> m = 7 \<or> m = 8 \<or> m = 9 \<or> m = 10 \<or> m = 11"
    by presburger
  then consider "m = 0" | "m = 1" | "m = 2" | "m = 3" | "m = 4" | "m = 5" | "m = 6"
      | "m = 7" | "m = 8" | "m = 9" | "m = 10" | "m = 11"
    by blast
  then show ?thesis
  proof cases
    case 12
    then have a: "mi + 1 = 12 * (y + 1)" using mi by simp
    have b: "(mi + 1) div 12 = y + 1" "(mi + 1) mod 12 = 0" unfolding a by simp_all
    have c: "mi div 12 = y" "mi mod 12 = 11" using mi 12 by simp_all
    show ?thesis
      by (simp add: monthStartDay_def daysBeforeMonth_def monthLength_def b c dayFromYear_Suc Let_def)
  qed (simp_all add: mi monthStartDay_def daysBeforeMonth_def monthLength_def Let_def)
qed


lemma monthStartDay_mono:
  assumes "a < b"
  shows "monthStartDay a + monthLength a \<le> monthStartDay b"
proof -
  from assms have "a + 1 \<le> b" by simp
  then show ?thesis
  proof (induction b rule: int_ge_induct)
    case base
    show ?case by (simp add: monthStartDay_Suc)
  next
    case (step i)
    have "monthStartDay i \<le> monthStartDay (i + 1)"
      using monthLength_bounds [of i] by (simp add: monthStartDay_Suc)
    with step.IH show ?case by linarith
  qed
qed

lemma monthStartDay_pred:
  "monthStartDay (mi - 1) = monthStartDay mi - monthLength (mi - 1)"
  using monthStartDay_Suc [of "mi - 1"] by simp

lemma normDay_sound:
  "case normDay mi dy of (mi', dy') \<Rightarrow>
     monthStartDay mi' + dy' = monthStartDay mi + dy \<and> 1 \<le> dy' \<and> dy' \<le> monthLength mi'"
proof (induction mi dy rule: normDay.induct)
  case (1 mi dy)
  show ?case
  proof (cases "dy < 1")
    case True
    with 1(1) show ?thesis
      by (subst normDay.simps) (simp add: monthStartDay_pred split: prod.splits)
  next
    case False
    show ?thesis
    proof (cases "monthLength mi < dy")
      case True
      with False 1(2) show ?thesis
        by (subst normDay.simps) (simp add: monthStartDay_Suc split: prod.splits)
    next
      case inrange: False
      with False show ?thesis by (subst normDay.simps) simp
    qed
  qed
qed

lemma normDay_id: "1 \<le> dy \<Longrightarrow> dy \<le> monthLength mi \<Longrightarrow> normDay mi dy = (mi, dy)"
  by (subst normDay.simps) simp

lemma normDay_over:
  assumes "monthLength mi < dy" "dy \<le> monthLength mi + 28"
  shows "normDay mi dy = (mi + 1, dy - monthLength mi)"
proof -
  have "1 \<le> dy" using assms monthLength_bounds [of mi] by linarith
  then have "normDay mi dy = normDay (mi + 1) (dy - monthLength mi)"
    using assms by (subst normDay.simps) simp
  also have "\<dots> = (mi + 1, dy - monthLength mi)"
    using assms monthLength_bounds [of "mi + 1"] by (intro normDay_id) linarith+
  finally show ?thesis .
qed

lemma normDay_zero: "normDay mi 0 = (mi - 1, monthLength (mi - 1))"
proof -
  have "normDay mi 0 = normDay (mi - 1) (monthLength (mi - 1))"
    by (subst normDay.simps) simp
  also have "\<dots> = (mi - 1, monthLength (mi - 1))"
    using monthLength_bounds [of "mi - 1"] by (intro normDay_id) linarith+
  finally show ?thesis .
qed

lemma normDay_fst_snd:
  "monthStartDay (fst (normDay mi dy)) + snd (normDay mi dy) = monthStartDay mi + dy"
  "1 \<le> snd (normDay mi dy)"
  "snd (normDay mi dy) \<le> monthLength (fst (normDay mi dy))"
  using normDay_sound [of mi dy] by (cases "normDay mi dy"; simp)+

lemma dayNumber_makeDate: "dayNumber (makeDate mi dy ms) = monthStartDay mi + dy - 1"
  using normDay_fst_snd(1) [of mi dy] by (simp add: makeDate_def dayNumber_def Let_def)

lemma wellFormedTime_makeDate:
  "0 \<le> ms \<Longrightarrow> ms < msPerDay \<Longrightarrow> wellFormedTime (makeDate mi dy ms)"
  using normDay_fst_snd(2,3) [of mi dy] by (simp add: makeDate_def wellFormedTime_def Let_def)

lemma msOfDay_makeDate: "msOfDay (makeDate mi dy ms) = ms"
  by (simp add: makeDate_def Let_def)

lemma getDay_next: "getDay (setDate d (getDate d + 1)) = (getDay d + 1) mod 7"
  by (simp add: getDay_def setDate_def getDate_def dayNumber_makeDate)
     (simp add: dayNumber_def algebra_simps mod_simps)

section \<open>Bond and date helpers\<close>

definition CURVE_DATE :: jsDate where
  "CURVE_DATE = isoDate 2025 11 19"

definition DAYS_IN_YEAR :: real where
  "DAYS_IN_YEAR = 365.25"

text \<open>
  Strings are ASCII here: \<^verbatim>\<open>toLowerCase\<close> maps the letters A to Z, and
  \<^verbatim>\<open>includes\<close> is the test for a contiguous substring.
\<close>

definition lowerChar :: "char \<Rightarrow> char" where
  "lowerChar c =
     (let n = (of_char c :: nat) in if 65 \<le> n \<and> n \<le> 90 then char_of (n + 32) else c)"

definition toLowerCase :: "string \<Rightarrow> string" where
  "toLowerCase s = map lowerChar s"

definition stringIncludes :: "string \<Rightarrow> string \<Rightarrow> bool" where
  "stringIncludes s t = sublist t s"

record frequencyInfo =
  frequency :: real
  isBill :: bool

text \<open>
  A null frequency text is \<open>None\<close>; \<^verbatim>\<open>InterestPaymentFrequency || ""\<close> turns it into
  the empty string.
\<close>

definition getFrequencyPerYear :: "string \<Rightarrow> string option \<Rightarrow> real \<Rightarrow> frequencyInfo" where
  "getFrequencyPerYear securityType InterestPaymentFrequency interestRate =
     (let typeLower = toLowerCase securityType;
          freqLower = toLowerCase (case InterestPaymentFrequency of None \<Rightarrow> [] | Some t \<Rightarrow> t)
      in if stringIncludes typeLower ''bill'' \<or> stringIncludes freqLower ''none'' \<or> interestRate = 0
         then \<lparr>frequency = 0, isBill = True\<rparr>
         else if stringIncludes freqLower ''semi'' then \<lparr>frequency = 2, isBill = False\<rparr>
         else if stringIncludes freqLower ''quarter'' then \<lparr>frequency = 4, isBill = False\<rparr>
         else if stringIncludes freqLower ''annual'' \<or> stringIncludes freqLower ''year''
         then \<lparr>frequency = 1, isBill = False\<rparr>
         else if stringIncludes typeLower ''note'' \<or> stringIncludes typeLower ''bond''
         then \<lparr>frequency = 2, isBill = False\<rparr>
         else \<lparr>frequency = 2, isBill = False\<rparr>)"

text \<open>
  \<^verbatim>\<open>daysBetween\<close> on the time values of two valid dates. The code calls it behind a
  comparison that is false for an Invalid Date (the cashflow loop), or just before a
  \<^verbatim>\<open>toISOString\<close> that throws for one (the analytics).
\<close>

definition daysBetween :: "calendarTime \<Rightarrow> calendarTime \<Rightarrow> real" where
  "daysBetween a b =
     (let ms = real_of_int (getTime b - getTime a)
      in ms / (1000 * 60 * 60 * 24))"

definition daysInMonth :: "int \<Rightarrow> int \<Rightarrow> int" where
  "daysInMonth year monthZeroBased = getDate (newDate year (monthZeroBased + 1) 0)"

text \<open>
  \<^verbatim>\<open>addMonthsEOM\<close>. For an Invalid Date the getters return NaN, \<open>isEOM\<close> is false
  (\<^verbatim>\<open>NaN === NaN\<close> is false), \<^verbatim>\<open>setMonth\<close> leaves the copy invalid, and the
  copy is returned.
\<close>

fun addMonthsEOM :: "jsDate \<Rightarrow> real \<Rightarrow> jsDate" where
  "addMonthsEOM InvalidDate months = InvalidDate"
| "addMonthsEOM (ValidDate d) months =
     (let year = getFullYear d;
          month = getMonth d;
          day = getDate d;
          dim = daysInMonth year month;
          isEOM = (day = dim);
          nd = setMonth d (real_of_int month + months)
      in if isEOM
         then (let newDim = daysInMonth (getFullYear nd) (getMonth nd)
               in ValidDate (setDate nd newDim))
         else ValidDate nd)"

text \<open>
  \<^verbatim>\<open>nextBusinessDay\<close> is called on the reading of the clock (\<^verbatim>\<open>new Date()\<close>),
  which is a valid date. Its weekend loop ends after at most two steps.
\<close>

function skipWeekend :: "calendarTime \<Rightarrow> calendarTime" where
  "skipWeekend nd =
     (if getDay nd = 0 \<or> getDay nd = 6
      then skipWeekend (setDate nd (getDate nd + 1))
      else nd)"
  by pat_completeness auto
termination
proof (relation "measure (\<lambda>nd. if getDay nd = 6 then 2 else if getDay nd = 0 then 1 else 0)")
  show "wf (measure (\<lambda>nd. if getDay nd = 6 then 2 else if getDay nd = 0 then 1 else 0))"
    by simp
next
  fix nd :: calendarTime
  assume "getDay nd = 0 \<or> getDay nd = 6"
  then show "(setDate nd (getDate nd + 1), nd)
      \<in> measure (\<lambda>nd. if getDay nd = 6 then 2 else if getDay nd = 0 then 1 else 0)"
    by (auto simp: getDay_next)
qed

declare skipWeekend.simps [simp del]

definition nextBusinessDay :: "calendarTime \<Rightarrow> calendarTime" where
  "nextBusinessDay d = skipWeekend (setDate d (getDate d + 1))"

section \<open>Cashflow schedule\<close>

record cashflow =
  date :: jsDate
  tYears :: real
  amount :: real

record scheduleParams =
  curveDate :: jsDate
  maturityDate :: jsDate
  interestRatePercent :: real
  frequencyPerYear :: real
  datedDate :: "jsDate option"
  firstInterestPaymentDate :: "jsDate option"

text \<open>
  The fallback loop that steps back from maturity. The loop is a \<^verbatim>\<open>while (true)\<close>:
  a run that never leaves it has the value \<open>None\<close>. For an Invalid Date both comparisons
  are false at every step.
\<close>

partial_function (option) firstCouponWalk :: "real \<Rightarrow> jsDate \<Rightarrow> jsDate option" where
  "firstCouponWalk monthsPerPeriod d =
     (let prev = addMonthsEOM d (- monthsPerPeriod)
      in if dateLe prev CURVE_DATE \<or> dateLe prev (ValidDate (newDate 1970 0 1))
         then Some d
         else firstCouponWalk monthsPerPeriod prev)"

text \<open>
  The loop that generates the coupon dates from the first coupon date up to maturity.
  \<^verbatim>\<open>cfDate > curveDate\<close> holds only when both dates are valid; the day count is then
  taken on their time values.
\<close>

partial_function (option) couponLoop ::
  "jsDate \<Rightarrow> jsDate \<Rightarrow> real \<Rightarrow> real \<Rightarrow> jsDate \<Rightarrow> cashflow list \<Rightarrow> cashflow list option" where
  "couponLoop curveDt maturityDt couponPerPeriod monthsPerPeriod cfDate cashflows =
     (if dateLe cfDate maturityDt
      then couponLoop curveDt maturityDt couponPerPeriod monthsPerPeriod
             (addMonthsEOM cfDate monthsPerPeriod)
             (case (curveDt, cfDate) of
                (ValidDate cv, ValidDate cf) \<Rightarrow>
                  if getTime cv < getTime cf
                  then (let tYrs = daysBetween cv cf / DAYS_IN_YEAR;
                            amt = couponPerPeriod;
                            amt = (if sameTime cfDate maturityDt then amt + 100 else amt)
                        in cashflows @ [\<lparr>date = cfDate, tYears = tYrs, amount = amt\<rparr>])
                  else cashflows
              | _ \<Rightarrow> cashflows)
      else Some cashflows)"

text \<open>
  \<^verbatim>\<open>buildCashflowsForSecurity\<close>. Its callers pass a frequency other than 0 (bills
  are handled apart). The result is \<open>None\<close> when one of the two loops never ends.
\<close>

definition buildCashflowsForSecurity :: "scheduleParams \<Rightarrow> cashflow list option" where
  "buildCashflowsForSecurity params =
     (let faceValue = 100;
          annualCouponRate = interestRatePercent params / 100;
          couponPerPeriod = (faceValue * annualCouponRate) / frequencyPerYear params;
          monthsPerPeriod = 12 / frequencyPerYear params;
          firstCouponDate =
            (case firstInterestPaymentDate params of
               Some fd \<Rightarrow> Some fd
             | None \<Rightarrow>
                 (case datedDate params of
                    Some dd \<Rightarrow> Some (addMonthsEOM dd monthsPerPeriod)
                  | None \<Rightarrow> firstCouponWalk monthsPerPeriod (maturityDate params)))
      in case firstCouponDate of
           None \<Rightarrow> None
         | Some fcd \<Rightarrow>
             couponLoop (curveDate params) (maturityDate params) couponPerPeriod
               monthsPerPeriod fcd [])"



text \<open>
  What the generating loop emits for the valuation date \<open>cv\<close>, the maturity \<open>mt\<close> and
  the coupon \<open>cpp\<close>: a date after \<open>cv\<close> and on or before \<open>mt\<close>, and the coupon,
  with the face value 100 added when the date is the maturity date.
\<close>

definition emittedCashflow :: "jsDate \<Rightarrow> jsDate \<Rightarrow> real \<Rightarrow> cashflow \<Rightarrow> bool" where
  "emittedCashflow cv mt cpp x \<longleftrightarrow>
     dateLt cv (date x) \<and> dateLe (date x) mt
     \<and> amount x = cpp + (if sameTime (date x) mt then 100 else 0)"

section \<open>NSS curve and calibration\<close>

text \<open>
  \<^verbatim>\<open>nssYield\<close> reads the first six entries of the parameter array; shorter arrays
  (entries \<^verbatim>\<open>undefined\<close>) are outside the model.
\<close>

definition nssYield :: "real \<Rightarrow> real list \<Rightarrow> real" where
  "nssYield tYrs params =
     (let b0 = params ! 0; b1 = params ! 1; b2 = params ! 2; b3 = params ! 3;
          tau1 = params ! 4; tau2 = params ! 5
      in if tYrs \<le> 0 then b0
         else (let x1 = tYrs / tau1;
                   x2 = tYrs / tau2;
                   term1 = (1 - exp (- x1)) / x1;
                   term2 = term1 - exp (- x1);
                   term3 = (1 - exp (- x2)) / x2 - exp (- x2)
               in b0 + b1 * term1 + b2 * term2 + b3 * term3))"

record bond =
  cusip :: string
  dirtyPrice :: real
  cashflows :: "cashflow list"

definition bondSquaredErrorFromNss :: "real list \<Rightarrow> bond \<Rightarrow> real" where
  "bondSquaredErrorFromNss params b =
     (let pvNss = fold (\<lambda>cf pv. pv + amount cf * exp (- nssYield (tYears cf) params * tYears cf))
                    (cashflows b) 0;
          err = dirtyPrice b - pvNss
      in err * err)"

text \<open>
  A row of the query of \<^verbatim>\<open>buildCouponBonds\<close> (the join of the price table and the
  security table). Date strings are held as \<^verbatim>\<open>parseISODate\<close> parses them (a
  malformed one is \<open>InvalidDate\<close>); a null is \<open>None\<close>.
\<close>

record bondRow =
  row_cusip :: string
  row_dirty_price :: real
  SecurityType :: string
  MaturityDate :: jsDate
  InterestRate :: "real option"
  DatedDate :: "jsDate option"
  FirstInterestPaymentDate :: "jsDate option"
  InterestPaymentFrequency :: "string option"

text \<open>
  The loop over the rows of \<^verbatim>\<open>buildCouponBonds\<close>, with the bonds collected so far.
  A row is skipped when \<^verbatim>\<open>!r.InterestRate\<close> holds, that is when the rate is null
  or 0; otherwise \<open>rate\<close> is the rate of the row.
\<close>

fun couponBondsLoop :: "bondRow list \<Rightarrow> bond list \<Rightarrow> bond list option" where
  "couponBondsLoop [] bonds = Some bonds"
| "couponBondsLoop (r # rows) bonds =
     (let rate = (case InterestRate r of None \<Rightarrow> 0 | Some x \<Rightarrow> x);
          fi = getFrequencyPerYear (SecurityType r) (InterestPaymentFrequency r) rate
      in if isBill fi \<or> frequency fi = 0 \<or> InterestRate r = None \<or> InterestRate r = Some 0
         then couponBondsLoop rows bonds
         else (case buildCashflowsForSecurity
                      \<lparr>curveDate = CURVE_DATE,
                       maturityDate = MaturityDate r,
                       interestRatePercent = rate,
                       frequencyPerYear = frequency fi,
                       datedDate = DatedDate r,
                       firstInterestPaymentDate = FirstInterestPaymentDate r\<rparr> of
                 None \<Rightarrow> None
               | Some cfs \<Rightarrow>
                   if length cfs = 0 then couponBondsLoop rows bonds
                   else couponBondsLoop rows
                          (bonds @ [\<lparr>cusip = row_cusip r, dirtyPrice = row_dirty_price r,
                                     cashflows = cfs\<rparr>])))"

definition buildCouponBonds :: "bondRow list \<Rightarrow> bond list option" where
  "buildCouponBonds rows = couponBondsLoop rows []"

text \<open>
  The optimizer \<^verbatim>\<open>nelderMead\<close> is imported from a module that is not part of the
  sources at hand, so it is a parameter of the calibration. It takes the loss function and
  the start vector; \<open>None\<close> stands for a call that does not return a value (it throws or
  runs forever).
\<close>

record optResult =
  opt_x :: "real list"
  opt_fx :: real
  opt_iterations :: "nat option"

type_synonym optimizer = "(real list \<Rightarrow> real) \<Rightarrow> real list \<Rightarrow> optResult option"

record nssParameters =
  beta0 :: real
  beta1 :: real
  beta2 :: real
  beta3 :: real
  tau1 :: real
  tau2 :: real

record calibration =
  parameters :: nssParameters
  sse :: real
  iterations :: "nat option"
  bondsUsed :: nat

definition calibrationLoss :: "bond list \<Rightarrow> real list \<Rightarrow> real" where
  "calibrationLoss bonds theta =
     (let b0 = theta ! 0; b1 = theta ! 1; b2 = theta ! 2; b3 = theta ! 3;
          lnTau1 = theta ! 4; lnTau2 = theta ! 5;
          params = [b0, b1, b2, b3, exp lnTau1, exp lnTau2]
      in fold (\<lambda>b acc. acc + bondSquaredErrorFromNss params b) bonds 0)"

text \<open>
  \<^verbatim>\<open>calibrateNssFromDb\<close>, on the rows its query returns. The result is \<open>None\<close> when
  no value is returned; a returned value is the tagged error (\<open>Inl\<close>) or the calibration.
\<close>

definition calibrateNssFromDb :: "optimizer \<Rightarrow> bondRow list \<Rightarrow> (string + calibration) option" where
  "calibrateNssFromDb nelderMead rows =
     (case buildCouponBonds rows of
        None \<Rightarrow> None
      | Some bonds \<Rightarrow>
          if length bonds = 0
          then Some (Inl ''No bonds with usable coupon schedules were found for NSS fit.'')
          else (let theta0 = [0.04, - 0.02, 0.02, 0.01, ln 1.0, ln 3.0]
                in case nelderMead (calibrationLoss bonds) theta0 of
                     None \<Rightarrow> None
                   | Some opt \<Rightarrow>
                       (let x = opt_x opt
                        in Some (Inr \<lparr>parameters =
                                        \<lparr>beta0 = x ! 0, beta1 = x ! 1, beta2 = x ! 2,
                                         beta3 = x ! 3, tau1 = exp (x ! 4), tau2 = exp (x ! 5)\<rparr>,
                                      sse = opt_fx opt,
                                      iterations = opt_iterations opt,
                                      bondsUsed = length bonds\<rparr>))))"

section \<open>Treasury analytics\<close>

text \<open>
  The rows of the two queries, with the columns the computation reads or passes on. Date
  strings are held as \<^verbatim>\<open>parseISODate\<close> parses them (a malformed one is
  \<open>InvalidDate\<close>); a null is \<open>None\<close>.
\<close>

record priceRow =
  clean_price :: real

record secRow =
  sec_IssueDate :: jsDate
  sec_SecurityType :: string
  sec_SecurityTerm :: string
  sec_MaturityDate :: jsDate
  sec_InterestRate :: "real option"
  sec_DatedDate :: "jsDate option"
  sec_InterestPaymentFrequency :: "string option"

text \<open>
  The database: each of the two queries of \<^verbatim>\<open>calculateTreasuryAnalytics\<close> either
  throws or returns the first row with the CUSIP, if there is one.
\<close>

datatype 'a outcome = Throws | Returns 'a

record database =
  priceQuery :: "string \<Rightarrow> priceRow option outcome"
  securityQuery :: "string \<Rightarrow> secRow option outcome"

datatype analyticsError = NoPriceRecord string | NoSecurityRecord string | InternalError

record dayCountDetails =
  convention :: string
  detailsIsBill :: bool
  lastCouponDate :: "(int \<times> int \<times> int) option"
  nextCouponDate :: "(int \<times> int \<times> int) option"
  daysInPeriod :: real
  daysIntoPeriod :: real

record analytics =
  res_cusip :: string
  securityType :: string
  securityTerm :: string
  settlementDate :: "int \<times> int \<times> int"
  issueDate :: jsDate
  res_maturityDate :: jsDate
  couponRateAnnualPercent :: "real option"
  couponPerPeriodPer100 :: "real option"
  cleanPricePer100 :: real
  accruedInterestPer100 :: real
  dirtyPricePer100 :: real
  f :: real
  dayCount :: dayCountDetails

text \<open>
  \<^verbatim>\<open>toISOString().slice(0, 10)\<close> of a valid date: year, month (from 1) and day. On
  an Invalid Date \<^verbatim>\<open>toISOString\<close> throws a RangeError.
\<close>

definition isoDay :: "calendarTime \<Rightarrow> int \<times> int \<times> int" where
  "isoDay d = (getFullYear d, getMonth d + 1, getDate d)"

text \<open>
  The search for the coupon dates around settlement: the loop returns \<open>previous\<close> and
  \<open>current\<close> as they are when it breaks. For an Invalid Date both comparisons are false
  at every step and the loop never breaks.
\<close>

partial_function (option) bracketWalk :: "real \<Rightarrow> jsDate \<Rightarrow> jsDate \<Rightarrow> (jsDate \<times> jsDate) option" where
  "bracketWalk monthsPerPeriod settlementDt current =
     (let previous = addMonthsEOM current (- monthsPerPeriod)
      in if dateLe previous settlementDt \<or> dateLe previous (ValidDate (newDate 1970 0 1))
         then Some (previous, current)
         else bracketWalk monthsPerPeriod settlementDt previous)"

definition couponBracket :: "real \<Rightarrow> jsDate \<Rightarrow> jsDate \<Rightarrow> (jsDate \<times> jsDate) option" where
  "couponBracket monthsPerPeriod settlementDt maturityDt =
     (case bracketWalk monthsPerPeriod settlementDt maturityDt of
        None \<Rightarrow> None
      | Some (previous, current) \<Rightarrow>
          (let last = (if dateLe previous settlementDt then previous else current);
               next = addMonthsEOM last monthsPerPeriod
           in Some (last, next)))"

text \<open>
  \<^verbatim>\<open>calculateTreasuryAnalytics\<close>, on the database and on \<open>today\<close>, the reading of
  the clock (\<^verbatim>\<open>new Date()\<close>, a valid date). A thrown exception is caught and
  becomes \<open>InternalError\<close>: a failing query, or \<^verbatim>\<open>toISOString\<close> on an invalid
  coupon date. The result is \<open>None\<close> when the call never returns. The fixed texts of the
  result (price date, explanation) are left out.
\<close>

definition calculateTreasuryAnalytics ::
  "database \<Rightarrow> calendarTime \<Rightarrow> string \<Rightarrow> (analyticsError + analytics) option" where
  "calculateTreasuryAnalytics db today csp =
     (case priceQuery db csp of
        Throws \<Rightarrow> Some (Inl InternalError)
      | Returns None \<Rightarrow> Some (Inl (NoPriceRecord csp))
      | Returns (Some pRow) \<Rightarrow>
     (case securityQuery db csp of
        Throws \<Rightarrow> Some (Inl InternalError)
      | Returns None \<Rightarrow> Some (Inl (NoSecurityRecord csp))
      | Returns (Some sRow) \<Rightarrow>
     (let cleanPrice = clean_price pRow;
          maturityDt = sec_MaturityDate sRow;
          rate = (case sec_InterestRate sRow of None \<Rightarrow> 0 | Some x \<Rightarrow> x);
          annualCouponRate = rate / 100;
          fi = getFrequencyPerYear (sec_SecurityType sRow) (sec_InterestPaymentFrequency sRow) rate;
          freq = frequency fi;
          faceValue = 100;
          settlementDt = nextBusinessDay today
      in if isBill fi \<or> freq = 0 \<or> annualCouponRate = 0
         then Some (Inr
           \<lparr>res_cusip = csp,
            securityType = sec_SecurityType sRow,
            securityTerm = sec_SecurityTerm sRow,
            settlementDate = isoDay settlementDt,
            issueDate = sec_IssueDate sRow,
            res_maturityDate = sec_MaturityDate sRow,
            couponRateAnnualPercent = sec_InterestRate sRow,
            couponPerPeriodPer100 = None,
            cleanPricePer100 = cleanPrice,
            accruedInterestPer100 = 0,
            dirtyPricePer100 = cleanPrice,
            f = 0,
            dayCount = \<lparr>convention = ''Actual/Actual'', detailsIsBill = True,
                         lastCouponDate = None, nextCouponDate = None,
                         daysInPeriod = 0, daysIntoPeriod = 0\<rparr>\<rparr>)
         else (let couponPerPeriod = (faceValue * annualCouponRate) / freq;
                   monthsPerPeriod = 12 / freq
               in case couponBracket monthsPerPeriod (ValidDate settlementDt) maturityDt of
                    None \<Rightarrow> None
                  | Some (InvalidDate, nextC) \<Rightarrow> Some (Inl InternalError)
                  | Some (ValidDate lastCoupon, InvalidDate) \<Rightarrow> Some (Inl InternalError)
                  | Some (ValidDate lastCoupon, ValidDate nextCoupon) \<Rightarrow>
                      (let dInPeriod = daysBetween lastCoupon nextCoupon;
                           dIntoPeriod = daysBetween lastCoupon settlementDt;
                           fr = (if dInPeriod = 0 then 0 else dIntoPeriod / dInPeriod);
                           accrued = couponPerPeriod * fr;
                           dirty = cleanPrice + accrued
                       in Some (Inr
                         \<lparr>res_cusip = csp,
                          securityType = sec_SecurityType sRow,
                          securityTerm = sec_SecurityTerm sRow,
                          settlementDate = isoDay settlementDt,
                          issueDate = sec_IssueDate sRow,
                          res_maturityDate = sec_MaturityDate sRow,
                          couponRateAnnualPercent = sec_InterestRate sRow,
                          couponPerPeriodPer100 = Some couponPerPeriod,
                          cleanPricePer100 = cleanPrice,
                          accruedInterestPer100 = accrued,
                          dirtyPricePer100 = dirty,
                          f = fr,
                          dayCount =
                            \<lparr>convention = ''Actual/Actual with end-of-month adjustment'',
                             detailsIsBill = False,
                             lastCouponDate = Some (isoDay lastCoupon),
                             nextCouponDate = Some (isoDay nextCoupon),
                             daysInPeriod = dInPeriod, daysIntoPeriod = dIntoPeriod\<rparr>\<rparr>))))))"

section \<open>Example data\<close>

definition exampleNote :: secRow where
  "exampleNote =
     \<lparr>sec_IssueDate = isoDate 2024 1 15, sec_SecurityType = ''Note'',
      sec_SecurityTerm = ''10-Year'', sec_MaturityDate = isoDate 2034 1 15,
      sec_InterestRate = Some 4, sec_DatedDate = Some (isoDate 2024 1 15),
      sec_InterestPaymentFrequency = Some ''Semi-Annual''\<rparr>"

definition exampleBill :: secRow where
  "exampleBill =
     \<lparr>sec_IssueDate = isoDate 2025 9 4, sec_SecurityType = ''Bill'',
      sec_SecurityTerm = ''26-Week'', sec_MaturityDate = isoDate 2026 3 5,
      sec_InterestRate = None, sec_DatedDate = None,
      sec_InterestPaymentFrequency = Some ''None''\<rparr>"

definition exampleDb :: database where
  "exampleDb =
     \<lparr>priceQuery = (\<lambda>c. if c = ''NOTE'' then Returns (Some \<lparr>clean_price = 98.5\<rparr>)
                         else if c = ''BILL'' then Returns (Some \<lparr>clean_price = 99.1\<rparr>)
                         else Returns None),
      securityQuery = (\<lambda>c. if c = ''NOTE'' then Returns (Some exampleNote)
                            else if c = ''BILL'' then Returns (Some exampleBill)
                            else Returns None)\<rparr>"



definition exampleBillRow :: bondRow where
  "exampleBillRow =
     \<lparr>row_cusip = ''BILL'', row_dirty_price = 99.1, SecurityType = ''Bill'',
      MaturityDate = isoDate 2026 3 5, InterestRate = Some 4, DatedDate = None,
      FirstInterestPaymentDate = None, InterestPaymentFrequency = None\<rparr>"


definition shortNote :: secRow where
  "shortNote =
     \<lparr>sec_IssueDate = isoDate 2016 5 16, sec_SecurityType = ''Note'',
      sec_SecurityTerm = ''10-Year'', sec_MaturityDate = isoDate 2026 5 15,
      sec_InterestRate = Some 4, sec_DatedDate = Some (isoDate 2016 5 15),
      sec_InterestPaymentFrequency = Some ''Semi-Annual''\<rparr>"

definition malformedNote :: secRow where
  "malformedNote =
     \<lparr>sec_IssueDate = isoDate 2024 1 15, sec_SecurityType = ''Note'',
      sec_SecurityTerm = ''10-Year'', sec_MaturityDate = InvalidDate,
      sec_InterestRate = Some 4, sec_DatedDate = None,
      sec_InterestPaymentFrequency = Some ''Semi-Annual''\<rparr>"

definition moreDb :: database where
  "moreDb =
     \<lparr>priceQuery = (\<lambda>c. if c = ''SHORT'' then Returns (Some \<lparr>clean_price = 100\<rparr>)
                         else if c = ''MALFORMED'' then Returns (Some \<lparr>clean_price = 98.5\<rparr>)
                         else Returns None),
      securityQuery = (\<lambda>c. if c = ''SHORT'' then Returns (Some shortNote)
                            else if c = ''MALFORMED'' then Returns (Some malformedNote)
                            else Returns None)\<rparr>"

definition malformedRow :: bondRow where
  "malformedRow =
     \<lparr>row_cusip = ''MALFORMED'', row_dirty_price = 98.5, SecurityType = ''Note'',
      MaturityDate = InvalidDate, InterestRate = Some 4, DatedDate = None,
      FirstInterestPaymentDate = None, InterestPaymentFrequency = Some ''Semi-Annual''\<rparr>"


declare firstCouponWalk.simps [code]
declare couponLoop.simps [code]
declare bracketWalk.simps [code]

section \<open>Facts about month stepping\<close>

lemma makeDate_inrange:
  "1 \<le> dy \<Longrightarrow> dy \<le> monthLength mi \<Longrightarrow>
   makeDate mi dy ms = \<lparr>monthIndex = mi, dayOfMonth = dy, msOfDay = ms\<rparr>"
  by (simp add: makeDate_def normDay_id)

lemma makeDate_overflow:
  "monthLength mi < dy \<Longrightarrow> dy \<le> 31 \<Longrightarrow>
   makeDate mi dy ms = \<lparr>monthIndex = mi + 1, dayOfMonth = dy - monthLength mi, msOfDay = ms\<rparr>"
  using monthLength_bounds [of mi] by (simp add: makeDate_def normDay_over)

lemma monthIndex_makeDate:
  assumes "1 \<le> dy" "dy \<le> 31"
  shows "mi \<le> monthIndex (makeDate mi dy ms) \<and> monthIndex (makeDate mi dy ms) \<le> mi + 1"
proof (cases "dy \<le> monthLength mi")
  case True
  with assms show ?thesis by (simp add: makeDate_inrange)
next
  case False
  with assms show ?thesis by (simp add: makeDate_overflow)
qed

lemma daysInMonth_eq:
  "daysInMonth y m = monthLength (12 * (if 0 \<le> y \<and> y \<le> 99 then 1900 + y else y) + m)"
  by (simp add: daysInMonth_def newDate_def getDate_def makeDate_def normDay_zero Let_def)

lemma daysInMonth_bounds: "28 \<le> daysInMonth y m \<and> daysInMonth y m \<le> 31"
  unfolding daysInMonth_eq by (rule monthLength_bounds)

lemma toInteger_of_int: "toInteger (real_of_int a + real_of_int b) = a + b"
proof -
  have "real_of_int a + real_of_int b = real_of_int (a + b)" by simp
  then show ?thesis unfolding toInteger_def by (simp only: floor_of_int ceiling_of_int if_cancel)
qed

lemma setMonth_shift:
  "setMonth d (real_of_int (getMonth d) + real_of_int j)
   = makeDate (monthIndex d + j) (dayOfMonth d) (msOfDay d)"
  by (simp only: setMonth_def toInteger_of_int getFullYear_def getMonth_def getDate_def)
     (simp add: algebra_simps)

text \<open>
  The fields of the result of \<open>addMonthsEOM\<close> on a valid date, named for the proofs.
\<close>

definition monthStep :: "calendarTime \<Rightarrow> real \<Rightarrow> calendarTime" where
  "monthStep d months =
     (case addMonthsEOM (ValidDate d) months of ValidDate r \<Rightarrow> r | InvalidDate \<Rightarrow> d)"

lemma addMonthsEOM_ValidDate:
  "addMonthsEOM (ValidDate d) months = ValidDate (monthStep d months)"
  by (simp add: monthStep_def Let_def)

lemma monthStep_eq:
  "monthStep d months =
     (let year = getFullYear d;
          month = getMonth d;
          day = getDate d;
          dim = daysInMonth year month;
          isEOM = (day = dim);
          nd = setMonth d (real_of_int month + months)
      in if isEOM
         then (let newDim = daysInMonth (getFullYear nd) (getMonth nd)
               in setDate nd newDim)
         else nd)"
  by (simp add: monthStep_def Let_def)

declare addMonthsEOM.simps(2) [simp del]

lemma dateLe_ValidDate [simp]: "dateLe (ValidDate a) (ValidDate b) \<longleftrightarrow> getTime a \<le> getTime b"
  by (simp add: dateLe_def)

lemma dateLt_ValidDate [simp]: "dateLt (ValidDate a) (ValidDate b) \<longleftrightarrow> getTime a < getTime b"
  by (simp add: dateLt_def)

lemma sameTime_ValidDate [simp]: "sameTime (ValidDate a) (ValidDate b) \<longleftrightarrow> getTime a = getTime b"
  by (simp add: sameTime_def)

lemma dateLe_InvalidDate [simp]: "\<not> dateLe InvalidDate b" "\<not> dateLe a InvalidDate"
  by (simp_all add: dateLe_def split: option.splits)

lemma dateLt_InvalidDate [simp]: "\<not> dateLt InvalidDate b" "\<not> dateLt a InvalidDate"
  by (simp_all add: dateLt_def split: option.splits)

lemma sameTime_InvalidDate [simp]: "\<not> sameTime InvalidDate b" "\<not> sameTime a InvalidDate"
  by (simp_all add: sameTime_def split: option.splits)

lemma addMonthsEOM_index:
  assumes "wellFormedTime d"
  shows "wellFormedTime (monthStep d (real_of_int j))
       \<and> monthIndex d + j \<le> monthIndex (monthStep d (real_of_int j))
       \<and> monthIndex (monthStep d (real_of_int j)) \<le> monthIndex d + j + 2
       \<and> msOfDay (monthStep d (real_of_int j)) = msOfDay d"
proof -
  define nd where "nd = makeDate (monthIndex d + j) (dayOfMonth d) (msOfDay d)"
  have day: "1 \<le> dayOfMonth d" "dayOfMonth d \<le> 31" and ms: "0 \<le> msOfDay d" "msOfDay d < msPerDay"
    using assms monthLength_bounds [of "monthIndex d"] by (auto simp: wellFormedTime_def)
  have nd_idx: "monthIndex d + j \<le> monthIndex nd" "monthIndex nd \<le> monthIndex d + j + 1"
    using monthIndex_makeDate [OF day, of "monthIndex d + j" "msOfDay d"] by (simp_all add: nd_def)
  have nd_valid: "wellFormedTime nd" and nd_ms: "msOfDay nd = msOfDay d"
    using ms by (simp_all add: nd_def wellFormedTime_makeDate msOfDay_makeDate)
  define newDim where "newDim = daysInMonth (getFullYear nd) (getMonth nd)"
  have dim: "1 \<le> newDim" "newDim \<le> 31"
    using daysInMonth_bounds [of "getFullYear nd" "getMonth nd"] by (simp_all add: newDim_def)
  define r where "r = setDate nd newDim"
  have r_idx: "monthIndex nd \<le> monthIndex r" "monthIndex r \<le> monthIndex nd + 1"
    using monthIndex_makeDate [OF dim, of "monthIndex nd" "msOfDay nd"] by (simp_all add: r_def setDate_def)
  have r_valid: "wellFormedTime r" and r_ms: "msOfDay r = msOfDay d"
    using ms nd_ms by (simp_all add: r_def setDate_def wellFormedTime_makeDate msOfDay_makeDate)
  have "monthStep d (real_of_int j) = nd \<or> monthStep d (real_of_int j) = r"
    by (simp add: monthStep_eq Let_def setMonth_shift nd_def r_def newDim_def)
  then show ?thesis
    using nd_idx nd_valid nd_ms r_idx r_valid r_ms by auto
qed

lemma getTime_index_mono:
  assumes "wellFormedTime a" "wellFormedTime b" "monthIndex a < monthIndex b"
  shows "getTime a < getTime b"
proof -
  have "dayNumber a + 1 \<le> monthStartDay (monthIndex a) + monthLength (monthIndex a)"
    using assms(1) by (simp add: dayNumber_def wellFormedTime_def)
  also have "\<dots> \<le> monthStartDay (monthIndex b)"
    by (rule monthStartDay_mono [OF assms(3)])
  also have "\<dots> \<le> dayNumber b"
    using assms(2) by (simp add: dayNumber_def wellFormedTime_def)
  finally have "dayNumber a + 1 \<le> dayNumber b" .
  then have "(dayNumber a + 1) * 86400000 \<le> dayNumber b * 86400000" by simp
  then show ?thesis
    using assms(1,2) by (simp add: getTime_def wellFormedTime_def msPerDay_def)
qed

lemma getTime_floor: "getTime (newDate 1970 0 1) = 0"
  by code_simp



lemma addMonthsEOM_back_decreases:
  assumes "wellFormedTime d" "3 \<le> j"
  shows "getTime (monthStep d (- real_of_int j)) < getTime d"
proof -
  have e: "- real_of_int j = real_of_int (- j)" by simp
  have "wellFormedTime (monthStep d (real_of_int (- j)))"
    and "monthIndex (monthStep d (real_of_int (- j))) \<le> monthIndex d + (- j) + 2"
    using addMonthsEOM_index [OF assms(1), of "- j"] by simp_all
  then show ?thesis
    unfolding e using assms by (intro getTime_index_mono) simp_all
qed


lemma monthsPerPeriod_cases:
  assumes "freq = 1 \<or> freq = 2 \<or> freq = (4::real)"
  obtains j :: int where "12 / freq = real_of_int j" "3 \<le> j" "j \<le> 12"
proof -
  from assms consider "freq = 1" | "freq = 2" | "freq = 4" by blast
  then show ?thesis
  proof cases
    case 1
    then have "12 / freq = real_of_int 12" by simp
    then show ?thesis using that by simp
  next
    case 2
    then have "12 / freq = real_of_int 6" by simp
    then show ?thesis using that by simp
  next
    case 3
    then have "12 / freq = real_of_int 3" by simp
    then show ?thesis using that by simp
  qed
qed








lemma fraction_bounds:
  assumes "getTime lastC \<le> getTime s" "getTime s \<le> getTime nextC" "getTime lastC < getTime nextC"
  shows "0 \<le> daysBetween lastC s / daysBetween lastC nextC"
    and "daysBetween lastC s / daysBetween lastC nextC \<le> 1"
    and "daysBetween lastC nextC \<noteq> 0"
proof -
  have a: "0 \<le> daysBetween lastC s" using assms(1) by (simp add: daysBetween_def)
  have b: "0 < daysBetween lastC nextC" using assms(3) by (simp add: daysBetween_def)
  have c: "daysBetween lastC s \<le> daysBetween lastC nextC"
    using assms(2) by (simp add: daysBetween_def divide_right_mono)
  show "0 \<le> daysBetween lastC s / daysBetween lastC nextC" using a b by simp
  show "daysBetween lastC s / daysBetween lastC nextC \<le> 1" using b c by simp
  show "daysBetween lastC nextC \<noteq> 0" using b by simp
qed


section \<open>Facts about the backward walks\<close>

lemma firstCouponWalk_returns:
  assumes "wellFormedTime d" "3 \<le> j"
  shows "\<exists>fcd. firstCouponWalk (real_of_int j) (ValidDate d) = Some fcd"
  using assms(1)
proof (induction "nat (getTime d)" arbitrary: d rule: less_induct)
  case less
  define prev where "prev = monthStep d (- real_of_int j)"
  have e: "- real_of_int j = real_of_int (- j)" by simp
  have pv: "wellFormedTime prev"
    unfolding prev_def e using addMonthsEOM_index [OF less.prems, of "- j"] by simp
  have lt: "getTime prev < getTime d"
    unfolding prev_def by (rule addMonthsEOM_back_decreases [OF less.prems assms(2)])
  show ?case
  proof (cases "dateLe (ValidDate prev) CURVE_DATE
                \<or> dateLe (ValidDate prev) (ValidDate (newDate 1970 0 1))")
    case True
    then show ?thesis
      by (subst firstCouponWalk.simps)
         (simp add: addMonthsEOM_ValidDate prev_def [symmetric] Let_def)
  next
    case False
    then have "0 < getTime prev" by (simp add: getTime_floor)
    with lt have "nat (getTime prev) < nat (getTime d)" by simp
    from less.hyps [OF this pv] obtain fcd
      where "firstCouponWalk (real_of_int j) (ValidDate prev) = Some fcd" by blast
    with False show ?thesis
      by (subst firstCouponWalk.simps)
         (simp add: addMonthsEOM_ValidDate prev_def [symmetric] Let_def)
  qed
qed

text \<open>
  The bracket walk from a valid date, for a settlement time at or after 1 January 1970: it
  returns \<open>previous\<close> one step before \<open>current\<close>, with \<open>previous\<close> at or before
  settlement, and \<open>current\<close> at or after settlement when the walk started there.
\<close>

lemma bracketWalk_brackets:
  assumes "wellFormedTime cur" "3 \<le> j" "0 \<le> getTime s"
  shows "\<exists>p c. bracketWalk (real_of_int j) (ValidDate s) (ValidDate cur)
                 = Some (ValidDate p, ValidDate c)
           \<and> wellFormedTime c \<and> p = monthStep c (- real_of_int j)
           \<and> getTime p \<le> getTime s \<and> (getTime s \<le> getTime cur \<longrightarrow> getTime s \<le> getTime c)"
  using assms(1)
proof (induction "nat (getTime cur)" arbitrary: cur rule: less_induct)
  case less
  define prev where "prev = monthStep cur (- real_of_int j)"
  have e: "- real_of_int j = real_of_int (- j)" by simp
  have pv: "wellFormedTime prev"
    unfolding prev_def e using addMonthsEOM_index [OF less.prems(1), of "- j"] by simp
  have lt: "getTime prev < getTime cur"
    unfolding prev_def by (rule addMonthsEOM_back_decreases [OF less.prems(1) assms(2)])
  show ?case
  proof (cases "getTime prev \<le> getTime s \<or> getTime prev \<le> getTime (newDate 1970 0 1)")
    case True
    then have le: "getTime prev \<le> getTime s" using assms(3) by (auto simp: getTime_floor)
    have "bracketWalk (real_of_int j) (ValidDate s) (ValidDate cur)
            = Some (ValidDate prev, ValidDate cur)"
      using True
      by (subst bracketWalk.simps)
         (simp add: addMonthsEOM_ValidDate prev_def [symmetric] Let_def)
    then show ?thesis using less.prems le prev_def by blast
  next
    case False
    then have pos: "0 < getTime prev" and sp: "getTime s \<le> getTime prev"
      by (simp_all add: getTime_floor)
    from pos lt have "nat (getTime prev) < nat (getTime cur)" by simp
    from less.hyps [OF this pv] sp obtain p c
      where pc: "bracketWalk (real_of_int j) (ValidDate s) (ValidDate prev)
                   = Some (ValidDate p, ValidDate c)"
        "wellFormedTime c" "p = monthStep c (- real_of_int j)"
        "getTime p \<le> getTime s" "getTime s \<le> getTime c"
      by blast
    have "bracketWalk (real_of_int j) (ValidDate s) (ValidDate cur)
            = Some (ValidDate p, ValidDate c)"
      using False pc(1)
      by (subst bracketWalk.simps)
         (simp add: addMonthsEOM_ValidDate prev_def [symmetric] Let_def)
    with pc show ?thesis by blast
  qed
qed


text \<open>From an Invalid Date neither walk returns.\<close>

lemma firstCouponWalk_InvalidDate: "firstCouponWalk mpp InvalidDate = None"
proof (rule ccontr)
  assume "firstCouponWalk mpp InvalidDate \<noteq> None"
  then obtain fcd where "firstCouponWalk mpp InvalidDate = Some fcd" by auto
  then have "InvalidDate \<noteq> InvalidDate"
  proof (induction mpp InvalidDate fcd rule: firstCouponWalk.raw_induct [rotated, consumes 1])
    case (1 walk mpp fcd)
    from 1(2) have "walk mpp InvalidDate = Some fcd" by (simp add: Let_def)
    from 1(1) [OF this] show ?case .
  qed
  then show False by simp
qed

lemma bracketWalk_InvalidDate: "bracketWalk mpp s InvalidDate = None"
proof (rule ccontr)
  assume "bracketWalk mpp s InvalidDate \<noteq> None"
  then obtain pc where "bracketWalk mpp s InvalidDate = Some pc" by auto
  then have "InvalidDate \<noteq> InvalidDate"
  proof (induction mpp s InvalidDate pc rule: bracketWalk.raw_induct [rotated, consumes 1])
    case (1 walk mpp s pc)
    from 1(2) have "walk mpp s InvalidDate = Some pc" by (simp add: Let_def)
    from 1(1) [OF this] show ?case .
  qed
  then show False by simp
qed





section \<open>Facts about the generated cashflows\<close>

lemma couponLoop_emitted:
  assumes "couponLoop cv mt cpp mpp cf acc = Some cfs"
  shows "(\<forall>x\<in>set acc. emittedCashflow cv mt cpp x)
     \<longrightarrow> (\<forall>x\<in>set cfs. emittedCashflow cv mt cpp x)"
  using assms
proof (induction cv mt cpp mpp cf acc cfs rule: couponLoop.raw_induct [rotated, consumes 1])
  case (1 loop cv mt cpp mpp cf acc cfs)
  show ?case
  proof (cases "dateLe cf mt")
    case False
    with 1(2) have "cfs = acc" by simp
    then show ?thesis by simp
  next
    case True
    define acc' where "acc' =
      (case (cv, cf) of
         (ValidDate v, ValidDate x) \<Rightarrow>
           if getTime v < getTime x
           then (let tYrs = daysBetween v x / DAYS_IN_YEAR;
                     amt = cpp;
                     amt = (if sameTime cf mt then amt + 100 else amt)
                 in acc @ [\<lparr>date = cf, tYears = tYrs, amount = amt\<rparr>])
           else acc
       | _ \<Rightarrow> acc)"
    from True 1(2) have "loop cv mt cpp mpp (addMonthsEOM cf mpp) acc' = Some cfs"
      unfolding acc'_def by simp
    from 1(1) [OF this]
    have ih: "(\<forall>x\<in>set acc'. emittedCashflow cv mt cpp x)
         \<longrightarrow> (\<forall>x\<in>set cfs. emittedCashflow cv mt cpp x)" .
    have "\<forall>x\<in>set acc'. emittedCashflow cv mt cpp x"
      if "\<forall>x\<in>set acc. emittedCashflow cv mt cpp x"
    proof (cases cv)
      case InvalidDate
      with that show ?thesis by (simp add: acc'_def)
    next
      case v: (ValidDate v)
      show ?thesis
      proof (cases cf)
        case InvalidDate
        with that v show ?thesis by (simp add: acc'_def)
      next
        case x: (ValidDate x)
        show ?thesis
        proof (cases "getTime v < getTime x")
          case False
          with that v x show ?thesis by (simp add: acc'_def)
        next
          case lt: True
          have "emittedCashflow cv mt cpp
                  \<lparr>date = cf, tYears = daysBetween v x / DAYS_IN_YEAR,
                   amount = (if sameTime cf mt then cpp + 100 else cpp)\<rparr>"
            using True lt v x by (simp add: emittedCashflow_def)
          with that lt v x show ?thesis by (simp add: acc'_def Let_def)
        qed
      qed
    qed
    with ih show ?thesis by blast
  qed
qed

lemma buildCashflowsForSecurity_emitted:
  assumes "buildCashflowsForSecurity ps = Some cfs"
    and "0 < interestRatePercent ps" and "0 < frequencyPerYear ps"
  shows "\<forall>x\<in>set cfs. dateLt (curveDate ps) (date x)
           \<and> dateLe (date x) (maturityDate ps) \<and> 0 < amount x"
proof -
  define cpp where "cpp = (100 * (interestRatePercent ps / 100)) / frequencyPerYear ps"
  have pos: "0 < cpp" using assms(2,3) by (simp add: cpp_def)
  define first where "first =
    (case firstInterestPaymentDate ps of
       Some fd \<Rightarrow> Some fd
     | None \<Rightarrow>
         (case datedDate ps of
            Some dd \<Rightarrow> Some (addMonthsEOM dd (12 / frequencyPerYear ps))
          | None \<Rightarrow> firstCouponWalk (12 / frequencyPerYear ps) (maturityDate ps)))"
  have b: "buildCashflowsForSecurity ps =
      (case first of None \<Rightarrow> None
       | Some fcd \<Rightarrow> couponLoop (curveDate ps) (maturityDate ps) cpp
                       (12 / frequencyPerYear ps) fcd [])"
    unfolding buildCashflowsForSecurity_def Let_def first_def cpp_def by (rule refl)
  from assms(1) obtain fcd
    where "couponLoop (curveDate ps) (maturityDate ps) cpp (12 / frequencyPerYear ps) fcd [] = Some cfs"
    unfolding b by (cases first) simp_all
  from couponLoop_emitted [OF this]
  have "\<forall>x\<in>set cfs. emittedCashflow (curveDate ps) (maturityDate ps) cpp x" by simp
  with pos show ?thesis by (simp add: emittedCashflow_def)
qed



text \<open>
  On valid dates and for 1, 2 or 4 periods per year both backward walks return, and every
  backward step is strictly earlier.
\<close>

lemma backward_walks_return_on_valid_dates:
  assumes "wellFormedTime m" and "freq = 1 \<or> freq = 2 \<or> freq = 4"
  shows "(\<exists>fcd. firstCouponWalk (12 / freq) (ValidDate m) = Some fcd)
       \<and> (\<forall>s. wellFormedTime s \<longrightarrow> 0 \<le> getTime s \<longrightarrow>
             (\<exists>previous current.
                bracketWalk (12 / freq) (ValidDate s) (ValidDate m) = Some (previous, current)))
       \<and> (\<forall>d. wellFormedTime d \<longrightarrow>
             dateLt (addMonthsEOM (ValidDate d) (- (12 / freq))) (ValidDate d))"
proof -
  obtain j :: int where j: "12 / freq = real_of_int j" "3 \<le> j"
    using assms(2) by (rule monthsPerPeriod_cases)
  have "\<exists>previous current.
          bracketWalk (real_of_int j) (ValidDate s) (ValidDate m) = Some (previous, current)"
    if "0 \<le> getTime s" for s
    using bracketWalk_brackets [OF assms(1) j(2) that] by blast
  then show ?thesis
    unfolding j(1)
    using firstCouponWalk_returns [OF assms(1) j(2)]
      addMonthsEOM_back_decreases [OF _ j(2)]
    by (simp add: addMonthsEOM_ValidDate)
qed

section \<open>End-of-month stepping\<close>

text \<open>
  Claim C3. The claim: a date that is the last day of its month is taken by
  \<open>addMonthsEOM\<close> to the last day of the month that many months away, and 29 February 2024
  stepped forward by 12 months gives 28 February 2025. On the code, 29 February 2024 is
  recognised as an end of month, but \<^verbatim>\<open>setMonth\<close> first carries the nonexistent
  29 February 2025 over to 1 March 2025, and the end-of-month adjustment then lands on
  31 March 2025.
\<close>

theorem addMonthsEOM_leap_day_lands_in_march:
  "getDate (utcMidnight 2024 2 29)
     = daysInMonth (getFullYear (utcMidnight 2024 2 29)) (getMonth (utcMidnight 2024 2 29))
   \<and> addMonthsEOM (isoDate 2024 2 29) 12 = isoDate 2025 3 31
   \<and> addMonthsEOM (isoDate 2024 2 29) 12 \<noteq> isoDate 2025 2 28"
  by code_simp

text \<open>
  Claim C4, as stated: 28 February 2023 stepped forward by 12 months gives
  28 February 2024. It does not: 28 February is the last day of February 2023, so the
  end-of-month rule moves the result to the last day of February 2024.
\<close>

theorem addMonthsEOM_feb28_2023_not_feb28:
  "addMonthsEOM (isoDate 2023 2 28) 12 \<noteq> isoDate 2024 2 28"
  by code_simp

text \<open>
  Claim C4, amended: 28 February 2023 stepped forward by 12 months gives
  29 February 2024, the last day of that month.
\<close>

theorem addMonthsEOM_feb28_2023_is_feb29:
  "addMonthsEOM (isoDate 2023 2 28) 12 = isoDate 2024 2 29"
  by code_simp

section \<open>The NSS spot rate\<close>

text \<open>
  Claim C6. For decay constants \<open>tau1 > 0\<close> and \<open>tau2 > 0\<close>, \<open>nssYield\<close> returns
  \<open>beta0\<close> when \<open>t \<le> 0\<close>, and for \<open>t > 0\<close> the NSS formula in \<open>x1 = t / tau1\<close> and
  \<open>x2 = t / tau2\<close>; for \<open>t > 0\<close> neither divisor is zero, so the real-valued formula is
  the value the code computes.
\<close>

theorem nssYield_formula:
  assumes "0 < tauOne" "0 < tauTwo"
  shows "nssYield t [betaZero, betaOne, betaTwo, betaThree, tauOne, tauTwo]
         = (if t \<le> 0 then betaZero
            else betaZero + betaOne * ((1 - exp (- (t / tauOne))) / (t / tauOne))
                 + betaTwo * (((1 - exp (- (t / tauOne))) / (t / tauOne)) - exp (- (t / tauOne)))
                 + betaThree * (((1 - exp (- (t / tauTwo))) / (t / tauTwo)) - exp (- (t / tauTwo))))
         \<and> (0 < t \<longrightarrow> t / tauOne \<noteq> 0 \<and> t / tauTwo \<noteq> 0)"
  using assms by (simp add: nssYield_def Let_def)

theorem nssYield_formula_witness:
  "(0::real) < 1 \<and> (0::real) < 3
   \<and> nssYield 0 [0.04, - 0.02, 0.02, 0.01, 1, 3] = 0.04
   \<and> nssYield 3 [0.04, - 0.02, 0.02, 0.01, 1, 3]
       = 0.04 + (- 0.02) * ((1 - exp (- 3)) / 3)
         + 0.02 * ((1 - exp (- 3)) / 3 - exp (- 3))
         + 0.01 * ((1 - exp (- 1)) / 1 - exp (- 1))"
  using nssYield_formula [where tauOne = 1 and tauTwo = 3 and t = 0 and betaZero = "0.04"
      and betaOne = "- 0.02" and betaTwo = "0.02" and betaThree = "0.01"]
    nssYield_formula [where tauOne = 1 and tauTwo = 3 and t = 3 and betaZero = "0.04"
      and betaOne = "- 0.02" and betaTwo = "0.02" and betaThree = "0.01"]
  by simp

section \<open>Calibration on an empty universe\<close>

text \<open>
  Claim C8. If no coupon-bearing bond is built from the rows, \<open>calibrateNssFromDb\<close>
  returns the tagged error, whatever the optimizer is: also with an optimizer whose every
  call throws or diverges, so the optimizer is not called and nothing is thrown.
\<close>

theorem calibrate_empty_universe:
  assumes "buildCouponBonds rows = Some []"
  shows "calibrateNssFromDb nelderMead rows
         = Some (Inl ''No bonds with usable coupon schedules were found for NSS fit.'')"
  using assms by (simp add: calibrateNssFromDb_def)

theorem calibrate_empty_universe_witness:
  "buildCouponBonds [exampleBillRow] = Some []
   \<and> calibrateNssFromDb (\<lambda>loss theta0. None) [exampleBillRow]
       = Some (Inl ''No bonds with usable coupon schedules were found for NSS fit.'')"
proof -
  have h: "buildCouponBonds [exampleBillRow] = Some []"
    by code_simp
  show ?thesis
    using h calibrate_empty_universe [OF h, of "\<lambda>loss theta0. None"] by simp
qed

section \<open>Clean and dirty price\<close>

text \<open>
  Claim C1. Every successful result of \<open>calculateTreasuryAnalytics\<close> has its dirty price
  equal to its clean price plus its accrued interest. For a security classified as a bill
  with a price row, the call succeeds for every reading of the clock, with accrued
  interest 0, dirty price equal to the clean price, and \<open>f = 0\<close>.
\<close>

theorem analytics_dirty_price:
  "(calculateTreasuryAnalytics db today c = Some (Inr r)
      \<longrightarrow> dirtyPricePer100 r = cleanPricePer100 r + accruedInterestPer100 r)
   \<and> (priceQuery db c = Returns (Some p) \<and> securityQuery db c = Returns (Some s)
        \<and> isBill (getFrequencyPerYear (sec_SecurityType s) (sec_InterestPaymentFrequency s)
                     (case sec_InterestRate s of None \<Rightarrow> 0 | Some x \<Rightarrow> x))
      \<longrightarrow> (\<exists>r'. calculateTreasuryAnalytics db today c = Some (Inr r')
                \<and> accruedInterestPer100 r' = 0
                \<and> dirtyPricePer100 r' = cleanPricePer100 r'
                \<and> cleanPricePer100 r' = clean_price p
                \<and> f r' = 0))"
proof (intro conjI impI)
  assume "calculateTreasuryAnalytics db today c = Some (Inr r)"
  then show "dirtyPricePer100 r = cleanPricePer100 r + accruedInterestPer100 r"
    by (auto simp: calculateTreasuryAnalytics_def Let_def
             split: outcome.splits option.splits if_splits prod.splits jsDate.splits)
next
  assume "priceQuery db c = Returns (Some p) \<and> securityQuery db c = Returns (Some s)
        \<and> isBill (getFrequencyPerYear (sec_SecurityType s) (sec_InterestPaymentFrequency s)
                     (case sec_InterestRate s of None \<Rightarrow> 0 | Some x \<Rightarrow> x))"
  then show "\<exists>r'. calculateTreasuryAnalytics db today c = Some (Inr r')
                \<and> accruedInterestPer100 r' = 0
                \<and> dirtyPricePer100 r' = cleanPricePer100 r'
                \<and> cleanPricePer100 r' = clean_price p
                \<and> f r' = 0"
    by (simp add: calculateTreasuryAnalytics_def Let_def)
qed

theorem analytics_dirty_price_witness:
  "\<exists>r. calculateTreasuryAnalytics exampleDb (utcMidnight 2025 11 19) ''BILL'' = Some (Inr r)
       \<and> accruedInterestPer100 r = 0
       \<and> dirtyPricePer100 r = cleanPricePer100 r
       \<and> f r = 0
       \<and> dirtyPricePer100 r = cleanPricePer100 r + accruedInterestPer100 r"
proof -
  have h: "priceQuery exampleDb ''BILL'' = Returns (Some \<lparr>clean_price = 99.1\<rparr>)
      \<and> securityQuery exampleDb ''BILL'' = Returns (Some exampleBill)
      \<and> isBill (getFrequencyPerYear (sec_SecurityType exampleBill)
                   (sec_InterestPaymentFrequency exampleBill)
                   (case sec_InterestRate exampleBill of None \<Rightarrow> 0 | Some x \<Rightarrow> x))"
    by code_simp
  from h analytics_dirty_price
         [of exampleDb "utcMidnight 2025 11 19" "''BILL''" undefined "\<lparr>clean_price = 99.1\<rparr>" exampleBill]
  obtain r where r: "calculateTreasuryAnalytics exampleDb (utcMidnight 2025 11 19) ''BILL'' = Some (Inr r)"
    "accruedInterestPer100 r = 0" "dirtyPricePer100 r = cleanPricePer100 r" "f r = 0"
    by blast
  from r(1) analytics_dirty_price
         [of exampleDb "utcMidnight 2025 11 19" "''BILL''" r "\<lparr>clean_price = 99.1\<rparr>" exampleBill]
  have "dirtyPricePer100 r = cleanPricePer100 r + accruedInterestPer100 r"
    by blast
  with r show ?thesis by blast
qed


section \<open>Dependence on the clock\<close>




section \<open>Cashflow schedules\<close>



text \<open>
  Claim C5. The claim: every emitted date is after the valuation date and on or before
  maturity, every amount is positive, and the final cashflow includes the face value 100.
  For a semi-annual 4% note with first coupon on 31 August 2022 and maturity on
  28 February 2027, the month stepping drifts off the end of February (31 August,
  31 March, 31 October, ...), no generated date equals the maturity date, and the final
  cashflow is a bare coupon of 2. The other parts of the claim hold of every schedule
  (\<open>buildCashflowsForSecurity_emitted\<close>).
\<close>

theorem end_of_month_schedule_misses_maturity:
  "map_option (map (\<lambda>cf. (date cf, amount cf)))
     (buildCashflowsForSecurity
        \<lparr>curveDate = CURVE_DATE, maturityDate = isoDate 2027 2 28,
         interestRatePercent = 4, frequencyPerYear = 2,
         datedDate = Some (isoDate 2022 2 28),
         firstInterestPaymentDate = Some (isoDate 2022 8 31)\<rparr>)
   = Some [(isoDate 2026 1 31, 2), (isoDate 2026 7 31, 2), (isoDate 2027 1 31, 2)]"
  by code_simp

section \<open>Backward walks\<close>

text \<open>
  Claim C10. The claim: for every maturity date and 1, 2 or 4 periods per year the two
  backward walks terminate. A maturity string that is no date parses to an Invalid Date;
  stepping it back gives an Invalid Date again, both comparisons of the loop are false,
  and neither loop ever breaks: the analytics call for such a coupon-bearing security and
  the bond universe over such a row never return. (On valid dates the walks do return:
  \<open>backward_walks_return_on_valid_dates\<close>.)
\<close>

theorem walks_never_return_on_invalid_maturity:
  "sec_MaturityDate malformedNote = InvalidDate
   \<and> securityQuery moreDb ''MALFORMED'' = Returns (Some malformedNote)
   \<and> bracketWalk (12 / 2) (ValidDate (nextBusinessDay (atClock 2025 11 19 10 0))) InvalidDate
       = None
   \<and> calculateTreasuryAnalytics moreDb (atClock 2025 11 19 10 0) ''MALFORMED'' = None
   \<and> MaturityDate malformedRow = InvalidDate
   \<and> firstCouponWalk (12 / 2) InvalidDate = None
   \<and> buildCouponBonds [malformedRow] = None"
proof -
  have fi: "getFrequencyPerYear ''Note'' (Some ''Semi-Annual'') 4
              = \<lparr>frequency = 2, isBill = False\<rparr>"
    by code_simp
  have a: "calculateTreasuryAnalytics moreDb (atClock 2025 11 19 10 0) ''MALFORMED'' = None"
    by (simp add: calculateTreasuryAnalytics_def moreDb_def malformedNote_def fi Let_def
          couponBracket_def bracketWalk_InvalidDate)
  have b: "buildCouponBonds [malformedRow] = None"
    by (simp add: buildCouponBonds_def malformedRow_def fi Let_def
          buildCashflowsForSecurity_def firstCouponWalk_InvalidDate)
  show ?thesis
    using a b
    by (simp add: malformedNote_def malformedRow_def moreDb_def bracketWalk_InvalidDate
          firstCouponWalk_InvalidDate)
qed

section \<open>Day-count fraction\<close>




end
